theory Spec2Isabelle
  imports Main "HOL-Library.Word"
begin

unbundle bit_operations_syntax

section \<open>ChaCha20-Poly1305 AEAD composition (chacha20poly1305guard.go)\<close>

subsection \<open>Data model\<close>

type_synonym byte = "8 word"

text \<open>
  A Go byte slice that is passed in as \<open>dst\<close> or handed back to the caller is either
  \<open>nil\<close> (\<open>None\<close>) or a slice with contents. The other slice parameters (\<open>nonce\<close>,
  \<open>plaintext\<close>, \<open>ciphertext\<close>, \<open>data\<close>) are only measured with \<open>len\<close>, read and
  re-sliced, for which a nil and an empty slice behave alike; they are byte lists.
\<close>

type_synonym slice = "byte list option"

fun bytes_of :: "slice \<Rightarrow> byte list" where
  "bytes_of None = []"
| "bytes_of (Some xs) = xs"

text \<open>Go's \<open>append(s, xs...)\<close>: appending nothing hands \<open>s\<close> back, nil included.\<close>

definition append_go :: "slice \<Rightarrow> byte list \<Rightarrow> slice" where
  "append_go s xs = (if xs = [] then s else Some (bytes_of s @ xs))"

text \<open>The three error variables of the package.\<close>

datatype error = ErrAuthFailed | ErrInvalidKey | ErrInvalidNonce

text \<open>
  A panic carries one of the package's errors (\<open>panic(ErrInvalidNonce)\<close>), the error
  returned by the stream cipher's constructor (\<open>panic(err)\<close>), or is a run-time error of
  Go itself (slice bounds or index out of range).
\<close>

datatype panic = Panic_error error | Panic_stream string | Panic_runtime

text \<open>
  The struct \<open>chacha20poly1305\<close>. The field \<open>ek\<close> is a \<open>*memguard.LockedBuffer\<close>; the
  code reads it only through \<open>Buffer()\<close>, so the model keeps the bytes.
\<close>

record chacha20poly1305 =
  ek :: "byte list"
  isXChaCha :: bool

text \<open>
  Modelled from the spec: the constants \<open>chacha20guard.KeySize\<close>,
  \<open>chacha20guard.NonceSize\<close>, \<open>chacha20guard.XNonceSize\<close> and \<open>poly1305.TagSize\<close> belong
  to imported packages; the spec gives a 32-byte key, nonces of 8 and 24 bytes and a
  16-byte tag. The source agrees where it speaks: the constructors' comments ask for a
  256-bit key, and the README's examples use nonces of 8 and of 24 bytes.
\<close>

definition chacha20guard_KeySize :: nat where "chacha20guard_KeySize = 32"
definition chacha20guard_NonceSize :: nat where "chacha20guard_NonceSize = 8"
definition chacha20guard_XNonceSize :: nat where "chacha20guard_XNonceSize = 24"
definition poly1305_TagSize :: nat where "poly1305_TagSize = 16"

definition KeySize :: nat where
  "KeySize = chacha20guard_KeySize"

subsection \<open>External collaborators\<close>

text \<open>
  The stream cipher and the MAC are imported packages; the model takes them as
  parameters. A constructor of the stream cipher returns an error (its message) or a
  key stream, given here as the function from stream position to key-stream byte.
  \<open>poly1305_Sum m key\<close> is the content of \<open>out\<close> after \<open>poly1305.Sum(&out, m, &key)\<close>.
\<close>

record prims =
  chacha20guard_New :: "byte list \<Rightarrow> byte list \<Rightarrow> string + (nat \<Rightarrow> byte)"
  chacha20guard_NewX :: "byte list \<Rightarrow> byte list \<Rightarrow> string + (nat \<Rightarrow> byte)"
  poly1305_Sum :: "byte list \<Rightarrow> byte list \<Rightarrow> byte list"

text \<open>
  A \<open>cipher.Stream\<close>: the key stream and the position reached in it. \<open>XORKeyStream\<close>
  XORs \<open>src\<close> with the next \<open>len(src)\<close> key-stream bytes into the front of \<open>dst\<close> and
  advances; it panics when \<open>dst\<close> is shorter than \<open>src\<close>.
\<close>

record stream =
  keystream :: "nat \<Rightarrow> byte"
  pos :: nat

definition XORKeyStream :: "stream \<Rightarrow> byte list \<Rightarrow> byte list \<Rightarrow> (byte list \<times> stream) option" where
  "XORKeyStream c dst src =
     (if length dst < length src then None
      else Some (map (\<lambda>i. (src ! i) XOR keystream c (pos c + i)) [0..<length src]
                   @ drop (length src) dst,
                 c\<lparr>pos := pos c + length src\<rparr>))"

text \<open>
  \<open>subtle.ConstantTimeCompare\<close>: 1 when the two slices have equal contents, 0 otherwise
  (also when their lengths differ).
\<close>

definition ConstantTimeCompare :: "byte list \<Rightarrow> byte list \<Rightarrow> int" where
  "ConstantTimeCompare x y = (if x = y then 1 else 0)"

subsection \<open>Constructors and sizes\<close>

definition NewX :: "byte list \<Rightarrow> error + chacha20poly1305" where
  "NewX key =
     (if length key \<noteq> KeySize then Inl ErrInvalidKey
      else Inr \<lparr>ek = key, isXChaCha = True\<rparr>)"

definition New :: "byte list \<Rightarrow> error + chacha20poly1305" where
  "New key =
     (if length key \<noteq> KeySize then Inl ErrInvalidKey
      else Inr \<lparr>ek = key, isXChaCha = False\<rparr>)"

definition NonceSize :: "chacha20poly1305 \<Rightarrow> nat" where
  "NonceSize k = (if isXChaCha k then chacha20guard_XNonceSize else chacha20guard_NonceSize)"

definition Overhead :: "chacha20poly1305 \<Rightarrow> nat" where
  "Overhead k = poly1305_TagSize"

subsection \<open>The tag: framing of the MAC input\<close>

text \<open>
  \<open>copy(m[off:], src)\<close>: slicing panics (\<open>None\<close>) when \<open>off\<close> exceeds \<open>len(m)\<close>; \<open>copy\<close>
  writes as many bytes as fit.
\<close>

definition copy_at :: "byte list \<Rightarrow> nat \<Rightarrow> byte list \<Rightarrow> byte list option" where
  "copy_at m off src =
     (if length m < off then None
      else let n = min (length m - off) (length src)
           in Some (take off m @ take n src @ drop (off + n) m))"

text \<open>
  \<open>binary.LittleEndian.PutUint64(m[off:], v)\<close>: byte \<open>i\<close> of the eight is \<open>byte(v >> (8*i))\<close>;
  it panics when fewer than eight bytes are left.
\<close>

definition PutUint64_at :: "byte list \<Rightarrow> nat \<Rightarrow> 64 word \<Rightarrow> byte list option" where
  "PutUint64_at m off v =
     (if length m < off \<or> length m - off < 8 then None
      else Some (take off m @ map (\<lambda>i. ucast (drop_bit (8 * i) v)) [0..<8] @ drop (off + 8) m))"

text \<open>Lines 166 to 172 of \<open>tag\<close>: the message \<open>m\<close> handed to \<open>poly1305.Sum\<close>.\<close>

definition tag_message :: "byte list \<Rightarrow> byte list \<Rightarrow> byte list option" where
  "tag_message ciphertext data =
     (let m = replicate (length ciphertext + length data + 8 + 8) 0 in
      case copy_at m 0 data of None \<Rightarrow> None | Some m1 \<Rightarrow>
      case PutUint64_at m1 (length data) (of_nat (length data)) of None \<Rightarrow> None | Some m2 \<Rightarrow>
      case copy_at m2 (length data + 8) ciphertext of None \<Rightarrow> None | Some m3 \<Rightarrow>
      PutUint64_at m3 (length data + 8 + length ciphertext) (of_nat (length ciphertext)))"

definition tag :: "prims \<Rightarrow> byte list \<Rightarrow> byte list \<Rightarrow> byte list \<Rightarrow> byte list option" where
  "tag P key ciphertext data =
     (case tag_message ciphertext data of
        None \<Rightarrow> None
      | Some m \<Rightarrow> Some (poly1305_Sum P m key))"

subsection \<open>Seal and Open\<close>

text \<open>
  The local buffers of a call as they stand when it returns: the 64-byte \<open>subkey\<close>, the
  array \<open>poly1305Key\<close> and the stream \<open>c\<close>.
\<close>

record locals =
  l_subkey :: "byte list"
  l_poly1305Key :: "byte list"
  l_stream :: stream

text \<open>
  \<open>Seal_exec\<close> is the body of \<open>Seal\<close>: a panic, or the returned slice together with the
  local buffers at the return. The loop \<open>for i := 0; i < 32; i++\<close> that fills
  \<open>poly1305Key\<close> is the fold over \<open>[0..<32]\<close>.
\<close>

definition Seal_exec ::
  "prims \<Rightarrow> chacha20poly1305 \<Rightarrow> slice \<Rightarrow> byte list \<Rightarrow> byte list \<Rightarrow> byte list
     \<Rightarrow> panic + (slice \<times> locals)" where
  "Seal_exec P k dst nonce plaintext data =
     (if length nonce \<noteq> NonceSize k then Inl (Panic_error ErrInvalidNonce)
      else
        case (if isXChaCha k then chacha20guard_NewX P (ek k) nonce
              else chacha20guard_New P (ek k) nonce) of
          Inl err \<Rightarrow> Inl (Panic_stream err)
        | Inr ks \<Rightarrow>
           (case XORKeyStream \<lparr>keystream = ks, pos = 0\<rparr> (replicate 64 0) (replicate 64 0) of
              None \<Rightarrow> Inl Panic_runtime
            | Some (subkey, c1) \<Rightarrow>
               let poly1305Key = fold (\<lambda>i key. key[i := subkey ! i]) [0..<32] (replicate 32 0) in
               (case XORKeyStream c1 (replicate (length plaintext) 0) plaintext of
                  None \<Rightarrow> Inl Panic_runtime
                | Some (ciphertext, c2) \<Rightarrow>
                   (case tag P poly1305Key ciphertext data of
                      None \<Rightarrow> Inl Panic_runtime
                    | Some t \<Rightarrow>
                       Inr (append_go dst (bytes_of (append_go (Some ciphertext) t)),
                            \<lparr>l_subkey = subkey, l_poly1305Key = poly1305Key,
                             l_stream = c2\<rparr>)))))"

definition Seal ::
  "prims \<Rightarrow> chacha20poly1305 \<Rightarrow> slice \<Rightarrow> byte list \<Rightarrow> byte list \<Rightarrow> byte list
     \<Rightarrow> panic + slice" where
  "Seal P k dst nonce plaintext data = map_sum id fst (Seal_exec P k dst nonce plaintext data)"

text \<open>
  \<open>Open_exec\<close> is the body of \<open>Open\<close>. The slice expression
  \<open>ciphertext[len(ciphertext)-k.Overhead():]\<close> has a negative bound when the input is
  shorter than the tag, which is a run-time panic.
\<close>

definition Open_exec ::
  "prims \<Rightarrow> chacha20poly1305 \<Rightarrow> slice \<Rightarrow> byte list \<Rightarrow> byte list \<Rightarrow> byte list
     \<Rightarrow> panic + ((slice \<times> error option) \<times> locals)" where
  "Open_exec P k dst nonce ciphertext0 data =
     (if length nonce \<noteq> NonceSize k then Inl (Panic_error ErrInvalidNonce)
      else if length ciphertext0 < Overhead k then Inl Panic_runtime
      else
        let digest = drop (length ciphertext0 - Overhead k) ciphertext0;
            ciphertext = take (length ciphertext0 - Overhead k) ciphertext0 in
        case (if isXChaCha k then chacha20guard_NewX P (ek k) nonce
              else chacha20guard_New P (ek k) nonce) of
          Inl err \<Rightarrow> Inl (Panic_stream err)
        | Inr ks \<Rightarrow>
           (case XORKeyStream \<lparr>keystream = ks, pos = 0\<rparr> (replicate 64 0) (replicate 64 0) of
              None \<Rightarrow> Inl Panic_runtime
            | Some (subkey, c1) \<Rightarrow>
               let poly1305Key = fold (\<lambda>i key. key[i := subkey ! i]) [0..<32] (replicate 32 0) in
               (case tag P poly1305Key ciphertext data of
                  None \<Rightarrow> Inl Panic_runtime
                | Some t \<Rightarrow>
                   if ConstantTimeCompare t digest \<noteq> 1
                   then Inr ((None, Some ErrAuthFailed),
                             \<lparr>l_subkey = subkey, l_poly1305Key = poly1305Key, l_stream = c1\<rparr>)
                   else
                     (case XORKeyStream c1 (replicate (length ciphertext) 0) ciphertext of
                        None \<Rightarrow> Inl Panic_runtime
                      | Some (plaintext, c2) \<Rightarrow>
                         Inr ((append_go dst plaintext, None),
                              \<lparr>l_subkey = subkey, l_poly1305Key = poly1305Key,
                               l_stream = c2\<rparr>)))))"

definition Open ::
  "prims \<Rightarrow> chacha20poly1305 \<Rightarrow> slice \<Rightarrow> byte list \<Rightarrow> byte list \<Rightarrow> byte list
     \<Rightarrow> panic + (slice \<times> error option)" where
  "Open P k dst nonce ciphertext data = map_sum id fst (Open_exec P k dst nonce ciphertext data)"

subsection \<open>What the collaborators are relied on for\<close>

text \<open>
  The stream cipher's constructors accept every key of \<open>KeySize\<close> bytes with a nonce of
  their own nonce size, and \<open>poly1305.Sum\<close> fills an array of \<open>TagSize\<close> bytes.
\<close>

definition collaborators_ok :: "prims \<Rightarrow> bool" where
  "collaborators_ok P \<longleftrightarrow>
     (\<forall>key nonce. length key = chacha20guard_KeySize \<and> length nonce = chacha20guard_NonceSize
        \<longrightarrow> (\<exists>ks. chacha20guard_New P key nonce = Inr ks)) \<and>
     (\<forall>key nonce. length key = chacha20guard_KeySize \<and> length nonce = chacha20guard_XNonceSize
        \<longrightarrow> (\<exists>ks. chacha20guard_NewX P key nonce = Inr ks)) \<and>
     (\<forall>m key. length (poly1305_Sum P m key) = poly1305_TagSize)"

text \<open>The key stream the instance's constructor yields for a nonce, when it yields one.\<close>

definition stream_of :: "prims \<Rightarrow> chacha20poly1305 \<Rightarrow> byte list \<Rightarrow> string + (nat \<Rightarrow> byte)" where
  "stream_of P k nonce =
     (if isXChaCha k then chacha20guard_NewX P (ek k) nonce
      else chacha20guard_New P (ek k) nonce)"

subsection \<open>The construction in the words of the specification\<close>

text \<open>A number as an 8-byte little-endian unsigned integer, and the value of such bytes.\<close>

definition uint64_le :: "nat \<Rightarrow> byte list" where
  "uint64_le n = map (\<lambda>i. of_nat (n div 256 ^ i mod 256)) [0..<8]"

fun le_value :: "byte list \<Rightarrow> nat" where
  "le_value [] = 0"
| "le_value (b # bs) = unat b + 256 * le_value bs"

text \<open>
  \<open>frame(associated_data, ciphertext)\<close>: the associated data, its length, the ciphertext,
  its length.
\<close>

definition frame :: "byte list \<Rightarrow> byte list \<Rightarrow> byte list" where
  "frame associated_data ciphertext =
     associated_data @ uint64_le (length associated_data) @
     ciphertext @ uint64_le (length ciphertext)"

definition keystream_bytes :: "(nat \<Rightarrow> byte) \<Rightarrow> nat \<Rightarrow> nat \<Rightarrow> byte list" where
  "keystream_bytes ks off n = map ks [off..<off + n]"

definition xor_bytes :: "byte list \<Rightarrow> byte list \<Rightarrow> byte list" where
  "xor_bytes xs ys = map (\<lambda>(x, y). x XOR y) (zip xs ys)"

text \<open>
  The five steps of the specification's \<open>Seal\<close>: the 64-byte block at position 0, its
  first 32 bytes as the one-time key, the plaintext XORed with the key stream from
  position 64, the tag over the frame, ciphertext followed by tag.
\<close>

definition Seal_spec ::
  "(byte list \<Rightarrow> byte list \<Rightarrow> byte list) \<Rightarrow> (nat \<Rightarrow> byte) \<Rightarrow> byte list \<Rightarrow> byte list \<Rightarrow> byte list" where
  "Seal_spec mac ks plaintext associated_data =
     (let block = keystream_bytes ks 0 64;
          one_time_key = take 32 block;
          ciphertext = xor_bytes plaintext (keystream_bytes ks 64 (length plaintext));
          tg = mac (frame associated_data ciphertext) one_time_key
      in ciphertext @ tg)"

subsection \<open>A small instance of the collaborators\<close>

text \<open>
  Stand-ins for the stream cipher and the MAC, small enough to compute with: they check
  the sizes as the real constructors do and depend on every input byte.
\<close>

definition demo_keystream :: "byte list \<Rightarrow> byte list \<Rightarrow> nat \<Rightarrow> byte" where
  "demo_keystream key nonce i = sum_list key + sum_list nonce + of_nat (7 * i + 3)"

definition demo_New :: "nat \<Rightarrow> byte list \<Rightarrow> byte list \<Rightarrow> string + (nat \<Rightarrow> byte)" where
  "demo_New n key nonce =
     (if length key \<noteq> 32 then Inl ''invalid key size''
      else if length nonce \<noteq> n then Inl ''invalid nonce size''
      else Inr (demo_keystream key nonce))"

definition demo_Sum :: "byte list \<Rightarrow> byte list \<Rightarrow> byte list" where
  "demo_Sum m key = map (\<lambda>j. sum_list m + sum_list key + of_nat j) [0..<16]"

definition demo_prims :: prims where
  "demo_prims =
     \<lparr>chacha20guard_New = demo_New 8, chacha20guard_NewX = demo_New 24,
      poly1305_Sum = demo_Sum\<rparr>"

definition demo_key :: "byte list" where
  "demo_key = replicate 32 1"

definition demo_aead :: chacha20poly1305 where
  "demo_aead = \<lparr>ek = demo_key, isXChaCha = False\<rparr>"

definition demo_nonce :: "byte list" where
  "demo_nonce = replicate 8 2"

subsection \<open>Basic facts about the buffers\<close>

lemma XORKeyStream_eq_len:
  "length dst = length src \<Longrightarrow>
   XORKeyStream s dst src =
     Some (xor_bytes src (keystream_bytes (keystream s) (pos s) (length src)),
           s\<lparr>pos := pos s + length src\<rparr>)"
  by (auto simp: XORKeyStream_def xor_bytes_def keystream_bytes_def intro!: nth_equalityI)

lemma xor_bytes_zero:
  "xor_bytes (replicate n 0) ys = take n ys"
  by (auto simp: xor_bytes_def intro!: nth_equalityI)

lemma length_keystream_bytes [simp]: "length (keystream_bytes ks off n) = n"
  by (simp add: keystream_bytes_def)

lemma length_xor_bytes [simp]: "length (xor_bytes xs ys) = min (length xs) (length ys)"
  by (simp add: xor_bytes_def)

lemma take_keystream_bytes:
  "m \<le> n \<Longrightarrow> take m (keystream_bytes ks off n) = keystream_bytes ks off m"
  by (simp add: keystream_bytes_def take_map)

lemma fold_copy_prefix:
  "n \<le> length key \<Longrightarrow> n \<le> length sub \<Longrightarrow>
   fold (\<lambda>i key. key[i := sub ! i]) [0..<n] key = take n sub @ drop n key"
proof (induction n)
  case 0
  then show ?case by simp
next
  case (Suc n)
  then show ?case
    by (simp add: take_Suc_conv_app_nth list_update_append upd_conv_take_nth_drop Cons_nth_drop_Suc)
qed

lemma copy_at_fits:
  "off + length src \<le> length m \<Longrightarrow>
   copy_at m off src = Some (take off m @ src @ drop (off + length src) m)"
  by (simp add: copy_at_def min_def)

lemma PutUint64_at_fits:
  "off + 8 \<le> length m \<Longrightarrow>
   PutUint64_at m off v =
     Some (take off m @ map (\<lambda>i. ucast (drop_bit (8 * i) v)) [0..<8] @ drop (off + 8) m)"
  by (simp add: PutUint64_at_def)


lemma xor_bytes_involution:
  "length ys = length xs \<Longrightarrow> xor_bytes (xor_bytes xs ys) ys = xs"
  by (auto simp: xor_bytes_def xor.assoc intro!: nth_equalityI)

lemma le_byte_of_nat:
  "i < 8 \<Longrightarrow> (ucast (drop_bit (8 * i) (of_nat n :: 64 word)) :: byte) = of_nat (n div 256 ^ i mod 256)"
proof -
  assume i: "i < 8"
  have p: "(256::nat) ^ i = 2 ^ (8 * i)" by (simp add: power_mult)
  have "(of_nat (n div 256 ^ i mod 256) :: byte) = of_nat (take_bit 8 (drop_bit (8 * i) n))"
    by (simp add: p take_bit_eq_mod drop_bit_eq_div)
  also have "\<dots> = ucast (drop_bit (8 * i) (of_nat n :: 64 word))"
    using i by (intro bit_word_eqI) (auto simp: bit_simps)
  finally show ?thesis by simp
qed

lemma le_value_digits:
  "le_value (map (\<lambda>i. of_nat (n div 256 ^ i mod 256) :: byte) [k..<k + m]) = n div 256 ^ k mod 256 ^ m"
proof (induction m arbitrary: k)
  case 0
  then show ?case by simp
next
  case (Suc m)
  have "[k..<k + Suc m] = k # [Suc k..<Suc k + m]"
    by (simp add: upt_conv_Cons)
  moreover have "unat (of_nat (n div 256 ^ k mod 256) :: byte) = n div 256 ^ k mod 256"
    by (simp add: unat_of_nat)
  moreover have "n div 256 ^ Suc k = n div 256 ^ k div 256"
    by (simp add: mult.commute flip: div_mult2_eq)
  ultimately show ?case
    using Suc.IH [of "Suc k"]
    by (simp add: mod_mult2_eq)
qed

lemma le_value_uint64_le: "n < 2 ^ 64 \<Longrightarrow> le_value (uint64_le n) = n"
  using le_value_digits [of n 0 8] by (simp add: uint64_le_def)

lemma le_bytes_uint64_le:
  "map (\<lambda>i. ucast (drop_bit (8 * i) (of_nat n :: 64 word)) :: byte) [0..<8] = uint64_le n"
  unfolding uint64_le_def by (rule map_cong) (simp_all add: le_byte_of_nat)

lemma length_uint64_le [simp]: "length (uint64_le n) = 8"
  by (simp add: uint64_le_def)

lemma tag_message_frame: "tag_message ciphertext data = Some (frame data ciphertext)"
proof -
  let ?lc = "length ciphertext" and ?ld = "length data"
  let ?m = "replicate (?lc + ?ld + 8 + 8) (0::byte)"
  let ?m1 = "data @ replicate (?lc + 16) (0::byte)"
  let ?m2 = "data @ uint64_le ?ld @ replicate (?lc + 8) (0::byte)"
  let ?m3 = "data @ uint64_le ?ld @ ciphertext @ replicate 8 (0::byte)"
  have s1: "copy_at ?m 0 data = Some ?m1"
    by (simp add: copy_at_fits)
  have s2: "PutUint64_at ?m1 ?ld (of_nat ?ld) = Some ?m2"
    by (simp add: PutUint64_at_fits le_bytes_uint64_le)
  have s3: "copy_at ?m2 (?ld + 8) ciphertext = Some ?m3"
    by (simp add: copy_at_fits)
  have s4: "PutUint64_at ?m3 (?ld + 8 + ?lc) (of_nat ?lc) = Some (frame data ciphertext)"
    by (simp add: PutUint64_at_fits le_bytes_uint64_le frame_def)
  show ?thesis
    unfolding tag_message_def Let_def by (simp only: s1 s2 s3 s4 option.case)
qed

lemma tag_eq: "tag P key ciphertext data = Some (poly1305_Sum P (frame data ciphertext) key)"
  by (simp add: tag_def tag_message_frame)

lemma append_go_twice: "append_go dst (bytes_of (append_go (Some xs) t)) = append_go dst (xs @ t)"
  by (simp add: append_go_def)

lemma subkey_block:
  "XORKeyStream \<lparr>keystream = ks, pos = 0\<rparr> (replicate 64 0) (replicate 64 0) =
     Some (keystream_bytes ks 0 64, \<lparr>keystream = ks, pos = 64\<rparr>)"
  by (simp add: XORKeyStream_eq_len xor_bytes_zero)

lemma poly1305Key_copy:
  "fold (\<lambda>i key. key[i := keystream_bytes ks 0 64 ! i]) [0..<32] (replicate 32 0) =
     keystream_bytes ks 0 32"
  by (simp add: fold_copy_prefix take_keystream_bytes)

lemma Seal_exec_valid:
  assumes "length nonce = NonceSize k" and "stream_of P k nonce = Inr ks"
  shows "Seal_exec P k dst nonce plaintext data =
     Inr (append_go dst
            (xor_bytes plaintext (keystream_bytes ks 64 (length plaintext)) @
             poly1305_Sum P
               (frame data (xor_bytes plaintext (keystream_bytes ks 64 (length plaintext))))
               (keystream_bytes ks 0 32)),
          \<lparr>l_subkey = keystream_bytes ks 0 64, l_poly1305Key = keystream_bytes ks 0 32,
           l_stream = \<lparr>keystream = ks, pos = 64 + length plaintext\<rparr>\<rparr>)"
proof -
  have st: "(if isXChaCha k then chacha20guard_NewX P (ek k) nonce
             else chacha20guard_New P (ek k) nonce) = Inr ks"
    using assms(2) by (simp add: stream_of_def)
  show ?thesis
    unfolding Seal_exec_def
    by (simp only: assms(1) st subkey_block poly1305Key_copy Let_def) 
       (simp add: XORKeyStream_eq_len tag_eq append_go_twice poly1305Key_copy)
qed

lemma Open_exec_valid:
  assumes "length nonce = NonceSize k" and "stream_of P k nonce = Inr ks"
    and "16 \<le> length ct"
  shows "Open_exec P k dst nonce ct data =
     (if poly1305_Sum P (frame data (take (length ct - 16) ct)) (keystream_bytes ks 0 32)
           \<noteq> drop (length ct - 16) ct
      then Inr ((None, Some ErrAuthFailed),
                \<lparr>l_subkey = keystream_bytes ks 0 64, l_poly1305Key = keystream_bytes ks 0 32,
                 l_stream = \<lparr>keystream = ks, pos = 64\<rparr>\<rparr>)
      else Inr ((append_go dst
                   (xor_bytes (take (length ct - 16) ct)
                      (keystream_bytes ks 64 (length ct - 16))), None),
                \<lparr>l_subkey = keystream_bytes ks 0 64, l_poly1305Key = keystream_bytes ks 0 32,
                 l_stream = \<lparr>keystream = ks, pos = 64 + (length ct - 16)\<rparr>\<rparr>))"
proof -
  have st: "(if isXChaCha k then chacha20guard_NewX P (ek k) nonce
             else chacha20guard_New P (ek k) nonce) = Inr ks"
    using assms(2) by (simp add: stream_of_def)
  have ov: "\<not> length ct < Overhead k" "Overhead k = 16"
    using assms(3) by (simp_all add: Overhead_def poly1305_TagSize_def)
  show ?thesis
    unfolding Open_exec_def
    by (simp only: assms(1) st ov subkey_block poly1305Key_copy Let_def)
       (use assms(3) in \<open>simp add: XORKeyStream_eq_len tag_eq ConstantTimeCompare_def poly1305Key_copy\<close>)
qed

lemma stream_of_ok:
  assumes "collaborators_ok P" and "length (ek k) = KeySize" and "length nonce = NonceSize k"
  shows "\<exists>ks. stream_of P k nonce = Inr ks"
  using assms
  by (cases "isXChaCha k") (simp_all add: collaborators_ok_def stream_of_def NonceSize_def KeySize_def)

lemma length_poly1305_Sum: "collaborators_ok P \<Longrightarrow> length (poly1305_Sum P m key) = 16"
  by (simp add: collaborators_ok_def poly1305_TagSize_def)

lemma demo_prims_ok: "collaborators_ok demo_prims"
  by (simp add: collaborators_ok_def demo_prims_def demo_New_def demo_Sum_def
      chacha20guard_KeySize_def chacha20guard_NonceSize_def chacha20guard_XNonceSize_def
      poly1305_TagSize_def)

lemma demo_key_ok: "length (ek demo_aead) = KeySize"
  by (simp add: demo_aead_def demo_key_def KeySize_def chacha20guard_KeySize_def)

lemma demo_nonce_ok: "length demo_nonce = NonceSize demo_aead"
  by (simp add: demo_aead_def demo_nonce_def NonceSize_def chacha20guard_NonceSize_def)

lemma Seal_exec_dst:
  "Seal_exec P k dst nonce plaintext data =
     map_sum id (\<lambda>(r, l). (append_go dst (bytes_of r), l)) (Seal_exec P k None nonce plaintext data)"
  unfolding Seal_exec_def Let_def
  by (auto simp: append_go_def split: sum.splits option.splits prod.splits)

lemma Open_exec_dst:
  "Open_exec P k dst nonce ct data =
     map_sum id (\<lambda>((r, e), l). ((if e = None then append_go dst (bytes_of r) else None, e), l))
       (Open_exec P k None nonce ct data)"
  unfolding Open_exec_def Let_def
  by (auto simp: append_go_def split: sum.splits option.splits prod.splits)

lemma Open_exec_error:
  "Open_exec P k dst nonce ct data = Inr ((r, Some e), l) \<Longrightarrow> r = None \<and> e = ErrAuthFailed"
  unfolding Open_exec_def Let_def
  by (auto split: sum.splits option.splits prod.splits if_splits)

lemma demo_key_32: "length (ek demo_aead) = 32"
  by (simp add: demo_aead_def demo_key_def)

lemma demo_sealed:
  "Seal demo_prims demo_aead None demo_nonce [1, 2, 3] [9] =
     Inr (Some [242, 248, 2, 233, 234, 235, 236, 237, 238, 239, 240, 241, 242, 243,
                244, 245, 246, 247, 248])"
  by code_simp

lemma demo_opened:
  "Open demo_prims demo_aead None demo_nonce
     [242, 248, 2, 233, 234, 235, 236, 237, 238, 239, 240, 241, 242, 243,
      244, 245, 246, 247, 248] [9] = Inr (Some [1, 2, 3], None)"
  by code_simp

lemma demo_rejected:
  "Open demo_prims demo_aead (Some [5]) demo_nonce (replicate 16 0) [9] =
     Inr (None, Some ErrAuthFailed)"
  by code_simp

lemma demo_stream:
  "stream_of demo_prims demo_aead demo_nonce = Inr (demo_keystream demo_key demo_nonce)"
  by (simp add: stream_of_def demo_prims_def demo_aead_def demo_New_def demo_key_def
      demo_nonce_def)

subsection \<open>The constructors check the key size\<close>

text \<open>
  C8: \<open>New\<close> and \<open>NewX\<close> return \<open>ErrInvalidKey\<close> if and only if the key is not 32 bytes
  long; otherwise they return the instance holding that key, in short-nonce mode for
  \<open>New\<close> and extended-nonce mode for \<open>NewX\<close>.
\<close>

theorem New_NewX_key_size:
  "(New key = Inl ErrInvalidKey \<longleftrightarrow> length key \<noteq> 32) \<and>
   (NewX key = Inl ErrInvalidKey \<longleftrightarrow> length key \<noteq> 32) \<and>
   (length key = 32 \<longrightarrow>
      New key = Inr \<lparr>ek = key, isXChaCha = False\<rparr> \<and>
      NewX key = Inr \<lparr>ek = key, isXChaCha = True\<rparr>)"
  by (simp add: New_def NewX_def KeySize_def chacha20guard_KeySize_def)

theorem New_NewX_key_size_witness:
  "length (replicate 32 (0::byte)) = 32 \<and>
   New (replicate 32 0) = Inr \<lparr>ek = replicate 32 0, isXChaCha = False\<rparr> \<and>
   NewX (replicate 32 0) = Inr \<lparr>ek = replicate 32 0, isXChaCha = True\<rparr> \<and>
   New [1, 2, 3] = Inl ErrInvalidKey \<and> NewX [] = Inl ErrInvalidKey"
  using New_NewX_key_size [of "replicate 32 0"] New_NewX_key_size [of "[1, 2, 3]"]
    New_NewX_key_size [of "[]"]
  by simp

subsection \<open>The nonce check\<close>

text \<open>
  C7: \<open>Seal\<close> and \<open>Open\<close> panic with \<open>ErrInvalidNonce\<close> exactly when the length of the
  nonce differs from the instance's nonce size, which is 8 bytes in short-nonce mode and
  24 bytes in extended-nonce mode; with a nonce of the right length neither panics on
  the nonce check.
\<close>

theorem nonce_size_panic:
  "(Seal P k dst nonce plaintext data = Inl (Panic_error ErrInvalidNonce)
      \<longleftrightarrow> length nonce \<noteq> NonceSize k) \<and>
   (Open P k dst nonce ciphertext data = Inl (Panic_error ErrInvalidNonce)
      \<longleftrightarrow> length nonce \<noteq> NonceSize k) \<and>
   NonceSize k = (if isXChaCha k then 24 else 8)"
proof -
  have "Seal P k dst nonce plaintext data = Inl (Panic_error ErrInvalidNonce)
          \<longleftrightarrow> length nonce \<noteq> NonceSize k"
    unfolding Seal_def Seal_exec_def Let_def
    by (auto split: sum.splits option.splits prod.splits)
  moreover have "Open P k dst nonce ciphertext data = Inl (Panic_error ErrInvalidNonce)
          \<longleftrightarrow> length nonce \<noteq> NonceSize k"
    unfolding Open_def Open_exec_def Let_def
    by (auto split: sum.splits option.splits prod.splits)
  moreover have "NonceSize k = (if isXChaCha k then 24 else 8)"
    by (simp add: NonceSize_def chacha20guard_NonceSize_def chacha20guard_XNonceSize_def)
  ultimately show ?thesis by blast
qed

theorem nonce_size_panic_witness:
  "Seal demo_prims demo_aead None [1, 2, 3] [] [] = Inl (Panic_error ErrInvalidNonce) \<and>
   Open demo_prims demo_aead None [1, 2, 3] (replicate 16 0) [] = Inl (Panic_error ErrInvalidNonce) \<and>
   Seal demo_prims demo_aead None demo_nonce [] [] \<noteq> Inl (Panic_error ErrInvalidNonce) \<and>
   Open demo_prims demo_aead None demo_nonce (replicate 16 0) [] \<noteq> Inl (Panic_error ErrInvalidNonce) \<and>
   NonceSize demo_aead = 8"
proof -
  have short: "length [1, 2, 3 :: byte] \<noteq> NonceSize demo_aead"
    by (simp add: demo_aead_def NonceSize_def chacha20guard_NonceSize_def)
  have x: "\<not> isXChaCha demo_aead" by (simp add: demo_aead_def)
  show ?thesis
    using nonce_size_panic [of demo_prims demo_aead None "[1, 2, 3]" "[]" "[]" "replicate 16 0"]
      nonce_size_panic [of demo_prims demo_aead None demo_nonce "[]" "[]" "replicate 16 0"]
      short demo_nonce_ok x
    by simp
qed

subsection \<open>Input shorter than the tag\<close>

text \<open>
  C3: an input of fewer than 16 bytes should make \<open>Open\<close> return \<open>ErrAuthFailed\<close>.
  The code does not: with a nonce of the right size, \<open>Open\<close> on such an input panics
  at the slice expression that cuts off the tag.
\<close>

theorem Open_short_input_panics:
  assumes "length nonce = NonceSize k" and "length ciphertext < 16"
  shows "Open P k dst nonce ciphertext data = Inl Panic_runtime"
  using assms by (simp add: Open_def Open_exec_def Overhead_def poly1305_TagSize_def)

theorem Open_short_input_panics_witness:
  "length demo_nonce = NonceSize demo_aead \<and> length (replicate 15 (0::byte)) < 16 \<and>
   Open demo_prims demo_aead None demo_nonce (replicate 15 0) [] = Inl Panic_runtime"
proof -
  have h: "length (replicate 15 (0::byte)) < 16" by simp
  show ?thesis
    using Open_short_input_panics [OF demo_nonce_ok h, of demo_prims None "[]"] demo_nonce_ok
    by simp
qed

subsection \<open>The message handed to the MAC\<close>

text \<open>
  C5: the message that \<open>tag\<close> passes to \<open>poly1305.Sum\<close> is the associated data, its
  length as an 8-byte little-endian unsigned integer, the ciphertext, and its length as
  an 8-byte little-endian unsigned integer, with nothing in between. (Lengths below
  \<open>2 ^ 64\<close>, as every Go slice has.)
\<close>

theorem tag_message_framing:
  assumes "length data < 2 ^ 64" and "length ciphertext < 2 ^ 64"
  shows "tag P key ciphertext data =
           Some (poly1305_Sum P
                   (data @ uint64_le (length data) @ ciphertext @ uint64_le (length ciphertext))
                   key) \<and>
         tag_message ciphertext data =
           Some (data @ uint64_le (length data) @ ciphertext @ uint64_le (length ciphertext)) \<and>
         length (uint64_le (length data)) = 8 \<and>
         le_value (uint64_le (length data)) = length data \<and>
         length (uint64_le (length ciphertext)) = 8 \<and>
         le_value (uint64_le (length ciphertext)) = length ciphertext"
  using assms by (simp add: tag_eq tag_message_frame frame_def le_value_uint64_le)

theorem tag_message_framing_witness:
  "length [9 :: byte] < 2 ^ 64 \<and> length [1, 2, 3 :: byte] < 2 ^ 64 \<and>
   tag_message [1, 2, 3] [9] =
     Some [9, 1, 0, 0, 0, 0, 0, 0, 0, 1, 2, 3, 3, 0, 0, 0, 0, 0, 0, 0]"
proof -
  have h1: "length [9 :: byte] < 2 ^ 64" and h2: "length [1, 2, 3 :: byte] < 2 ^ 64"
    by simp_all
  have upt8: "[0..<8] = [0, 1, 2, 3, 4, 5, 6, 7]"
    by (simp add: upt_conv_Cons numeral_eq_Suc)
  have u1: "uint64_le (length [9 :: byte]) = [1, 0, 0, 0, 0, 0, 0, 0]"
    by (simp add: uint64_le_def upt8)
  have u3: "uint64_le (length [1, 2, 3 :: byte]) = [3, 0, 0, 0, 0, 0, 0, 0]"
    by (simp add: uint64_le_def upt8)
  have "tag_message [1, 2, 3] [9] =
          Some ([9] @ uint64_le (length [9 :: byte]) @ [1, 2, 3] @ uint64_le (length [1, 2, 3 :: byte]))"
    by (rule conjunct1 [OF conjunct2 [OF tag_message_framing [OF h1 h2]]])
  then show ?thesis
    unfolding u1 u3 using h1 h2 by simp
qed

subsection \<open>Seal, step by step\<close>

text \<open>
  C4: for a 32-byte key and a nonce of the instance's size, \<open>Seal\<close> returns what the five
  steps of the specification compute: the 64-byte key-stream block at position 0, its
  first 32 bytes as the one-time MAC key (the other 32 unused), the plaintext XORed with
  the key stream from position 64 on, the tag of the frame of associated data and
  ciphertext under the one-time key, and the ciphertext followed by the 16-byte tag.
\<close>

theorem Seal_follows_spec:
  assumes "collaborators_ok P" and "length (ek k) = 32" and "length nonce = NonceSize k"
  shows "\<exists>ks. stream_of P k nonce = Inr ks \<and>
           Seal P k None nonce plaintext data =
             Inr (Some (Seal_spec (poly1305_Sum P) ks plaintext data)) \<and>
           length (Seal_spec (poly1305_Sum P) ks plaintext data) = length plaintext + 16"
proof -
  from assms obtain ks where ks: "stream_of P k nonce = Inr ks"
    using stream_of_ok [of P k nonce] by (auto simp: KeySize_def chacha20guard_KeySize_def)
  let ?ct = "xor_bytes plaintext (keystream_bytes ks 64 (length plaintext))"
  let ?t = "poly1305_Sum P (frame data ?ct) (keystream_bytes ks 0 32)"
  have lt: "length ?t = 16"
    using assms(1) by (rule length_poly1305_Sum)
  then have ne: "?ct @ ?t \<noteq> []" by auto
  have spec: "Seal_spec (poly1305_Sum P) ks plaintext data = ?ct @ ?t"
    by (simp add: Seal_spec_def Let_def take_keystream_bytes)
  have "Seal P k None nonce plaintext data = Inr (Some (?ct @ ?t))"
    using ne by (simp add: Seal_def Seal_exec_valid [OF assms(3) ks] append_go_def)
  then show ?thesis
    using ks lt by (simp add: spec)
qed

theorem Seal_follows_spec_witness:
  "collaborators_ok demo_prims \<and> length (ek demo_aead) = 32 \<and>
   length demo_nonce = NonceSize demo_aead \<and>
   (\<exists>ks. stream_of demo_prims demo_aead demo_nonce = Inr ks \<and>
      Seal_spec (poly1305_Sum demo_prims) ks [1, 2, 3] [9] =
        [242, 248, 2, 233, 234, 235, 236, 237, 238, 239, 240, 241, 242, 243,
         244, 245, 246, 247, 248])"
  using Seal_follows_spec [OF demo_prims_ok demo_key_32 demo_nonce_ok, of "[1, 2, 3]" "[9]"]
    demo_prims_ok demo_key_32 demo_nonce_ok
  by (auto simp: demo_sealed)

subsection \<open>Round trip\<close>

text \<open>
  C2: for a 32-byte key, a nonce of the instance's size, any plaintext and any associated
  data (empty ones included), \<open>Open\<close> with the same nonce and associated data on the
  output of \<open>Seal\<close> returns the plaintext and no error.
\<close>

theorem Open_Seal_roundtrip:
  assumes "collaborators_ok P" and "length (ek k) = 32" and "length nonce = NonceSize k"
  shows "\<exists>sealed. Seal P k None nonce plaintext data = Inr sealed \<and>
           Open P k dst nonce (bytes_of sealed) data = Inr (append_go dst plaintext, None)"
proof -
  from assms obtain ks where ks: "stream_of P k nonce = Inr ks"
    using stream_of_ok [of P k nonce] by (auto simp: KeySize_def chacha20guard_KeySize_def)
  let ?ct = "xor_bytes plaintext (keystream_bytes ks 64 (length plaintext))"
  let ?t = "poly1305_Sum P (frame data ?ct) (keystream_bytes ks 0 32)"
  have lt: "length ?t = 16"
    using assms(1) by (rule length_poly1305_Sum)
  then have ne: "?ct @ ?t \<noteq> []" by auto
  have seal: "Seal P k None nonce plaintext data = Inr (Some (?ct @ ?t))"
    using ne by (simp add: Seal_def Seal_exec_valid [OF assms(3) ks] append_go_def)
  have len: "16 \<le> length (?ct @ ?t)" using lt by simp
  have split: "take (length (?ct @ ?t) - 16) (?ct @ ?t) = ?ct"
    "drop (length (?ct @ ?t) - 16) (?ct @ ?t) = ?t"
    "length (?ct @ ?t) - 16 = length plaintext"
    using lt by simp_all
  have "Open P k dst nonce (?ct @ ?t) data = Inr (append_go dst plaintext, None)"
    unfolding Open_def Open_exec_valid [OF assms(3) ks len] split
    by (simp add: xor_bytes_involution)
  with seal show ?thesis by simp
qed

theorem Open_Seal_roundtrip_witness:
  "collaborators_ok demo_prims \<and> length (ek demo_aead) = 32 \<and>
   length demo_nonce = NonceSize demo_aead \<and>
   (\<exists>sealed. Seal demo_prims demo_aead None demo_nonce [1, 2, 3] [9] = Inr sealed \<and>
      Open demo_prims demo_aead None demo_nonce (bytes_of sealed) [9] =
        Inr (Some [1, 2, 3], None)) \<and>
   (\<exists>sealed. Seal demo_prims demo_aead None demo_nonce [] [] = Inr sealed \<and>
      Open demo_prims demo_aead None demo_nonce (bytes_of sealed) [] = Inr (None, None))"
  using Open_Seal_roundtrip [OF demo_prims_ok demo_key_32 demo_nonce_ok, of "[1, 2, 3]" "[9]" None]
    Open_Seal_roundtrip [OF demo_prims_ok demo_key_32 demo_nonce_ok, of "[]" "[]" None]
    demo_prims_ok demo_key_32 demo_nonce_ok
  by (simp add: append_go_def)

subsection \<open>Lengths\<close>

text \<open>
  C9: with an empty destination, the output of \<open>Seal\<close> is 16 bytes longer than the
  plaintext, and when \<open>Open\<close> succeeds its output is 16 bytes shorter than its input.
  \<open>Open\<close> does succeed, with such an output, on every input of at least 16 bytes whose
  last 16 bytes are the tag of the rest.
\<close>

theorem Seal_Open_lengths:
  assumes "collaborators_ok P" and "length (ek k) = 32" and "length nonce = NonceSize k"
    and "bytes_of dst = []"
  shows "(\<exists>out. Seal P k dst nonce plaintext data = Inr out \<and>
            length (bytes_of out) = length plaintext + 16) \<and>
         (\<forall>out. Open P k dst nonce ciphertext data = Inr (out, None) \<longrightarrow>
            16 \<le> length ciphertext \<and> length (bytes_of out) = length ciphertext - 16) \<and>
         (\<exists>ks. stream_of P k nonce = Inr ks \<and>
            (16 \<le> length ciphertext \<and>
             tag P (keystream_bytes ks 0 32) (take (length ciphertext - 16) ciphertext) data
               = Some (drop (length ciphertext - 16) ciphertext) \<longrightarrow>
             (\<exists>out. Open P k dst nonce ciphertext data = Inr (out, None) \<and>
                length (bytes_of out) = length ciphertext - 16)))"
proof -
  from assms obtain ks where ks: "stream_of P k nonce = Inr ks"
    using stream_of_ok [of P k nonce] by (auto simp: KeySize_def chacha20guard_KeySize_def)
  have ag: "bytes_of (append_go dst xs) = xs" for xs
    using assms(4) by (simp add: append_go_def)
  have "length (bytes_of (fst (projr (Seal_exec P k dst nonce plaintext data)))) = length plaintext + 16"
    by (simp add: Seal_exec_valid [OF assms(3) ks] ag length_poly1305_Sum [OF assms(1)])
  then have seal: "\<exists>out. Seal P k dst nonce plaintext data = Inr out \<and>
            length (bytes_of out) = length plaintext + 16"
    by (simp add: Seal_def Seal_exec_valid [OF assms(3) ks])
  have opn: "16 \<le> length ciphertext \<and> length (bytes_of out) = length ciphertext - 16"
    if "Open P k dst nonce ciphertext data = Inr (out, None)" for out
  proof (cases "16 \<le> length ciphertext")
    case True
    from that show ?thesis
      unfolding Open_def Open_exec_valid [OF assms(3) ks True]
      using True by (auto simp: ag split: if_splits)
  next
    case False
    with assms(3) have "Open P k dst nonce ciphertext data = Inl Panic_runtime"
      by (simp add: Open_def Open_exec_def Overhead_def poly1305_TagSize_def)
    with that show ?thesis by simp
  qed
  have succ: "\<exists>out. Open P k dst nonce ciphertext data = Inr (out, None) \<and>
                length (bytes_of out) = length ciphertext - 16"
    if len: "16 \<le> length ciphertext"
      and m: "tag P (keystream_bytes ks 0 32) (take (length ciphertext - 16) ciphertext) data
               = Some (drop (length ciphertext - 16) ciphertext)"
  proof -
    from m have "poly1305_Sum P (frame data (take (length ciphertext - 16) ciphertext))
                   (keystream_bytes ks 0 32) = drop (length ciphertext - 16) ciphertext"
      by (simp add: tag_eq)
    then show ?thesis
      unfolding Open_def Open_exec_valid [OF assms(3) ks len]
      by (simp add: ag)
  qed
  from seal opn succ ks show ?thesis by blast
qed

theorem Seal_Open_lengths_witness:
  "collaborators_ok demo_prims \<and> length (ek demo_aead) = 32 \<and>
   length demo_nonce = NonceSize demo_aead \<and> bytes_of None = [] \<and>
   (\<exists>out. Seal demo_prims demo_aead None demo_nonce [1, 2, 3] [9] = Inr out \<and>
      length (bytes_of out) = length [1, 2, 3 :: byte] + 16) \<and>
   Open demo_prims demo_aead None demo_nonce
     [242, 248, 2, 233, 234, 235, 236, 237, 238, 239, 240, 241, 242, 243,
      244, 245, 246, 247, 248] [9] = Inr (Some [1, 2, 3], None) \<and>
   16 \<le> length [242, 248, 2, 233, 234, 235, 236, 237, 238, 239, 240, 241, 242, 243,
      244, 245, 246, 247, 248 :: byte] \<and>
   length (bytes_of (Some [1, 2, 3 :: byte])) =
     length [242, 248, 2, 233, 234, 235, 236, 237, 238, 239, 240, 241, 242, 243,
      244, 245, 246, 247, 248 :: byte] - 16"
proof -
  have e: "bytes_of None = []" by simp
  note t = Seal_Open_lengths [OF demo_prims_ok demo_key_32 demo_nonce_ok e,
      of "[1, 2, 3]" "[9]" "[242, 248, 2, 233, 234, 235, 236, 237, 238, 239, 240, 241, 242, 243,
      244, 245, 246, 247, 248]"]
  from t have s: "\<exists>out. Seal demo_prims demo_aead None demo_nonce [1, 2, 3] [9] = Inr out \<and>
      length (bytes_of out) = length [1, 2, 3 :: byte] + 16"
    by blast
  from t have "\<forall>out. Open demo_prims demo_aead None demo_nonce
     [242, 248, 2, 233, 234, 235, 236, 237, 238, 239, 240, 241, 242, 243,
      244, 245, 246, 247, 248] [9] = Inr (out, None) \<longrightarrow>
     16 \<le> length [242, 248, 2, 233, 234, 235, 236, 237, 238, 239, 240, 241, 242, 243,
      244, 245, 246, 247, 248 :: byte] \<and>
     length (bytes_of out) =
       length [242, 248, 2, 233, 234, 235, 236, 237, 238, 239, 240, 241, 242, 243,
      244, 245, 246, 247, 248 :: byte] - 16"
    by blast
  with demo_opened have o: "16 \<le> length [242, 248, 2, 233, 234, 235, 236, 237, 238, 239, 240, 241, 242, 243,
      244, 245, 246, 247, 248 :: byte] \<and>
     length (bytes_of (Some [1, 2, 3 :: byte])) =
       length [242, 248, 2, 233, 234, 235, 236, 237, 238, 239, 240, 241, 242, 243,
      244, 245, 246, 247, 248 :: byte] - 16"
    by blast
  from s o demo_opened demo_prims_ok demo_key_32 demo_nonce_ok e show ?thesis
    by blast
qed

subsection \<open>Verify, then decrypt\<close>

text \<open>
  C1: with a nonce of the right size and an input of at least 16 bytes, \<open>Open\<close>
  recomputes the tag over the input without its last 16 bytes, under the one-time key
  from the first 32 key-stream bytes, and compares it with those last 16 bytes. When they
  differ it returns \<open>ErrAuthFailed\<close> with a nil slice, and the stream stands at position
  64: only the key block has been drawn, the XOR that would produce plaintext has not run.
\<close>

theorem Open_rejects_before_decrypting:
  assumes "length nonce = NonceSize k" and "stream_of P k nonce = Inr ks"
    and "16 \<le> length ciphertext"
    and "tag P (keystream_bytes ks 0 32) (take (length ciphertext - 16) ciphertext) data
           \<noteq> Some (drop (length ciphertext - 16) ciphertext)"
  shows "Open P k dst nonce ciphertext data = Inr (None, Some ErrAuthFailed) \<and>
         (\<exists>l. Open_exec P k dst nonce ciphertext data = Inr ((None, Some ErrAuthFailed), l) \<and>
              pos (l_stream l) = 64)"
  using assms(4) unfolding Open_def Open_exec_valid [OF assms(1-3)]
  by (simp add: tag_eq)

theorem Open_rejects_before_decrypting_witness:
  "length demo_nonce = NonceSize demo_aead \<and>
   stream_of demo_prims demo_aead demo_nonce = Inr (demo_keystream demo_key demo_nonce) \<and>
   16 \<le> length [242, 248, 2, 233, 234, 235, 236, 237, 238, 239, 240, 241, 242, 243,
      244, 245, 246, 247, 249 :: byte] \<and>
   tag demo_prims (keystream_bytes (demo_keystream demo_key demo_nonce) 0 32) [242, 248, 2] [9]
     \<noteq> Some [233, 234, 235, 236, 237, 238, 239, 240, 241, 242, 243, 244, 245, 246, 247, 249] \<and>
   Open demo_prims demo_aead (Some [5]) demo_nonce
     [242, 248, 2, 233, 234, 235, 236, 237, 238, 239, 240, 241, 242, 243,
      244, 245, 246, 247, 249] [9] = Inr (None, Some ErrAuthFailed) \<and>
   (\<exists>l. Open_exec demo_prims demo_aead (Some [5]) demo_nonce
      [242, 248, 2, 233, 234, 235, 236, 237, 238, 239, 240, 241, 242, 243,
       244, 245, 246, 247, 249] [9] = Inr ((None, Some ErrAuthFailed), l) \<and>
      pos (l_stream l) = 64) \<and>
   Open demo_prims demo_aead (Some [5]) demo_nonce
     [242, 248, 2, 233, 234, 235, 236, 237, 238, 239, 240, 241, 242, 243,
      244, 245, 246, 247, 248] [9] = Inr (Some [5, 1, 2, 3], None)"
proof -
  let ?in = "[242, 248, 2, 233, 234, 235, 236, 237, 238, 239, 240, 241, 242, 243,
      244, 245, 246, 247, 249 :: byte]"
  have h3: "16 \<le> length ?in" by simp
  have pre: "take (length ?in - 16) ?in = [242, 248, 2]" by simp
  have suf: "drop (length ?in - 16) ?in =
      [233, 234, 235, 236, 237, 238, 239, 240, 241, 242, 243, 244, 245, 246, 247, 249]"
    by simp
  have m: "tag demo_prims (keystream_bytes (demo_keystream demo_key demo_nonce) 0 32)
      [242, 248, 2] [9]
     \<noteq> Some [233, 234, 235, 236, 237, 238, 239, 240, 241, 242, 243, 244, 245, 246, 247, 249]"
    by code_simp
  have h4: "tag demo_prims (keystream_bytes (demo_keystream demo_key demo_nonce) 0 32)
      (take (length ?in - 16) ?in) [9] \<noteq> Some (drop (length ?in - 16) ?in)"
    unfolding pre suf by (rule m)
  have good: "Open demo_prims demo_aead (Some [5]) demo_nonce
     [242, 248, 2, 233, 234, 235, 236, 237, 238, 239, 240, 241, 242, 243,
      244, 245, 246, 247, 248] [9] = Inr (Some [5, 1, 2, 3], None)"
    by code_simp
  note t = Open_rejects_before_decrypting [OF demo_nonce_ok demo_stream h3 h4, of "Some [5]"]
  from t demo_nonce_ok demo_stream h3 m good show ?thesis
    by blast
qed

subsection \<open>The destination buffer\<close>

text \<open>
  C10: for any destination \<open>dst\<close>, \<open>Seal\<close> returns \<open>dst\<close> followed by what it returns for
  a nil destination; when \<open>Open\<close> succeeds it returns \<open>dst\<close> followed by the plaintext it
  returns for a nil destination; and when \<open>Open\<close> returns an error, the error is
  \<open>ErrAuthFailed\<close> and the slice is nil whatever \<open>dst\<close> was.
\<close>

theorem dst_is_prefix:
  "(Seal P k None nonce plaintext data = Inr out \<longrightarrow>
      Seal P k dst nonce plaintext data = Inr (append_go dst (bytes_of out)) \<and>
      bytes_of (append_go dst (bytes_of out)) = bytes_of dst @ bytes_of out) \<and>
   (Open P k None nonce ciphertext data = Inr (r, None) \<longrightarrow>
      Open P k dst nonce ciphertext data = Inr (append_go dst (bytes_of r), None) \<and>
      bytes_of (append_go dst (bytes_of r)) = bytes_of dst @ bytes_of r) \<and>
   (Open P k dst nonce ciphertext data = Inr (r', Some e) \<longrightarrow>
      r' = None \<and> e = ErrAuthFailed)"
proof -
  have b: "bytes_of (append_go dst xs) = bytes_of dst @ xs" for xs
    by (simp add: append_go_def)
  have "Seal P k dst nonce plaintext data = Inr (append_go dst (bytes_of out))"
    if "Seal P k None nonce plaintext data = Inr out"
    using that unfolding Seal_def Seal_exec_dst [of P k dst]
    by (cases "Seal_exec P k None nonce plaintext data") auto
  moreover have "Open P k dst nonce ciphertext data = Inr (append_go dst (bytes_of r), None)"
    if "Open P k None nonce ciphertext data = Inr (r, None)"
    using that unfolding Open_def Open_exec_dst [of P k dst]
    by (cases "Open_exec P k None nonce ciphertext data") auto
  moreover have "r' = None \<and> e = ErrAuthFailed"
    if "Open P k dst nonce ciphertext data = Inr (r', Some e)"
    using that Open_exec_error [of P k dst nonce ciphertext data r' e]
    unfolding Open_def
    by (cases "Open_exec P k dst nonce ciphertext data") auto
  ultimately show ?thesis
    using b by blast
qed

theorem dst_is_prefix_witness:
  "Seal demo_prims demo_aead None demo_nonce [1, 2, 3] [9] =
     Inr (Some [242, 248, 2, 233, 234, 235, 236, 237, 238, 239, 240, 241, 242, 243,
                244, 245, 246, 247, 248]) \<and>
   Seal demo_prims demo_aead (Some [5]) demo_nonce [1, 2, 3] [9] =
     Inr (Some [5, 242, 248, 2, 233, 234, 235, 236, 237, 238, 239, 240, 241, 242, 243,
                244, 245, 246, 247, 248]) \<and>
   Open demo_prims demo_aead None demo_nonce
     [242, 248, 2, 233, 234, 235, 236, 237, 238, 239, 240, 241, 242, 243,
      244, 245, 246, 247, 248] [9] = Inr (Some [1, 2, 3], None) \<and>
   Open demo_prims demo_aead (Some [5]) demo_nonce
     [242, 248, 2, 233, 234, 235, 236, 237, 238, 239, 240, 241, 242, 243,
      244, 245, 246, 247, 248] [9] = Inr (Some [5, 1, 2, 3], None) \<and>
   Open demo_prims demo_aead (Some [5]) demo_nonce (replicate 16 0) [9] =
     Inr (None, Some ErrAuthFailed)"
  using dst_is_prefix [of demo_prims demo_aead demo_nonce "[1, 2, 3]" "[9]"
      "Some [242, 248, 2, 233, 234, 235, 236, 237, 238, 239, 240, 241, 242, 243,
                244, 245, 246, 247, 248]" "Some [5]"
      "[242, 248, 2, 233, 234, 235, 236, 237, 238, 239, 240, 241, 242, 243,
      244, 245, 246, 247, 248]" "Some [1, 2, 3]" None ErrAuthFailed]
    dst_is_prefix [of demo_prims demo_aead demo_nonce "[1, 2, 3]" "[9]"
      "Some [242, 248, 2, 233, 234, 235, 236, 237, 238, 239, 240, 241, 242, 243,
                244, 245, 246, 247, 248]" "Some [5]"
      "replicate 16 0" "Some [1, 2, 3]" None ErrAuthFailed]
    demo_sealed demo_opened demo_rejected
  by (simp add: append_go_def)

subsection \<open>The transient buffers at return\<close>

text \<open>
  C6, as stated: every buffer holding the one-time key or key-stream material is
  overwritten before \<open>Seal\<close> or \<open>Open\<close> returns. It is not: after a \<open>Seal\<close> the 64-byte
  \<open>subkey\<close> still holds key-stream bytes, and after an \<open>Open\<close> that fails authentication
  \<open>poly1305Key\<close> still holds the one-time key.
\<close>

theorem buffers_not_scrubbed_counterexample:
  "map_sum id (l_subkey \<circ> snd)
     (Seal_exec demo_prims demo_aead None demo_nonce [1, 2, 3] [9]) =
   Inr [51, 58, 65, 72, 79, 86, 93, 100, 107, 114, 121, 128, 135, 142, 149,
       156, 163, 170, 177, 184, 191, 198, 205, 212, 219, 226, 233, 240, 247,
       254, 5, 12, 19, 26, 33, 40, 47, 54, 61, 68, 75, 82, 89, 96, 103, 110,
       117, 124, 131, 138, 145, 152, 159, 166, 173, 180, 187, 194, 201, 208,
       215, 222, 229, 236] \<and>
   map_sum id (l_poly1305Key \<circ> snd)
     (Open_exec demo_prims demo_aead None demo_nonce (replicate 16 0) [9]) =
   Inr [51, 58, 65, 72, 79, 86, 93, 100, 107, 114, 121, 128, 135, 142, 149,
       156, 163, 170, 177, 184, 191, 198, 205, 212, 219, 226, 233, 240, 247,
       254, 5, 12] \<and>
   map_sum id fst (Open_exec demo_prims demo_aead None demo_nonce (replicate 16 0) [9]) =
   Inr (None, Some ErrAuthFailed)"
  by code_simp

text \<open>
  C6, amended: no statement of \<open>Seal\<close> or \<open>Open\<close> writes to \<open>subkey\<close> or \<open>poly1305Key\<close>
  after the key is derived. When a call returns, on success and on authentication failure
  alike, \<open>subkey\<close> holds the first 64 key-stream bytes and \<open>poly1305Key\<close> the first 32.
\<close>

theorem buffers_keep_key_stream:
  assumes "length nonce = NonceSize k" and "stream_of P k nonce = Inr ks"
  shows "(\<exists>r l. Seal_exec P k dst nonce plaintext data = Inr (r, l) \<and>
            l_subkey l = keystream_bytes ks 0 64 \<and>
            l_poly1305Key l = keystream_bytes ks 0 32) \<and>
         (16 \<le> length ciphertext \<longrightarrow>
            (\<exists>r l. Open_exec P k dst nonce ciphertext data = Inr (r, l) \<and>
               l_subkey l = keystream_bytes ks 0 64 \<and>
               l_poly1305Key l = keystream_bytes ks 0 32))"
proof -
  have "\<exists>r l. Seal_exec P k dst nonce plaintext data = Inr (r, l) \<and>
            l_subkey l = keystream_bytes ks 0 64 \<and>
            l_poly1305Key l = keystream_bytes ks 0 32"
    by (simp add: Seal_exec_valid [OF assms])
  moreover have "\<exists>r l. Open_exec P k dst nonce ciphertext data = Inr (r, l) \<and>
               l_subkey l = keystream_bytes ks 0 64 \<and>
               l_poly1305Key l = keystream_bytes ks 0 32"
    if "16 \<le> length ciphertext"
    by (simp add: Open_exec_valid [OF assms that])
  ultimately show ?thesis by blast
qed

theorem buffers_keep_key_stream_witness:
  "length demo_nonce = NonceSize demo_aead \<and>
   stream_of demo_prims demo_aead demo_nonce = Inr (demo_keystream demo_key demo_nonce) \<and>
   16 \<le> length (replicate 16 (0::byte)) \<and>
   (\<exists>r l. Seal_exec demo_prims demo_aead None demo_nonce [1, 2, 3] [9] = Inr (r, l) \<and>
      l_poly1305Key l = keystream_bytes (demo_keystream demo_key demo_nonce) 0 32) \<and>
   (\<exists>r l. Open_exec demo_prims demo_aead None demo_nonce (replicate 16 0) [9] = Inr (r, l) \<and>
      l_poly1305Key l = keystream_bytes (demo_keystream demo_key demo_nonce) 0 32)"
proof -
  have h: "16 \<le> length (replicate 16 (0::byte))" by simp
  show ?thesis
    using buffers_keep_key_stream [OF demo_nonce_ok demo_stream, of None "[1, 2, 3]" "[9]"
        "replicate 16 0"] demo_nonce_ok demo_stream h
    by blast
qed

end
